theory Spec2Isabelle
  imports Main
begin

section \<open>Strings\<close>

text \<open>
  A Python \<open>str\<close> is modelled as a \<open>string\<close>, one \<open>char\<close> per code point; the
  code points covered are those below 256.
\<close>

definition isspace :: "char \<Rightarrow> bool" where
  \<comment> \<open>\<open>str.isspace\<close> on one character: the white space that \<open>str.strip()\<close> removes
      (U+0009..U+000D, U+001C..U+001F, U+0020, U+0085, U+00A0).\<close>
  "isspace c = (c \<in> set [CHR 0x09, CHR 0x0A, CHR 0x0B, CHR 0x0C, CHR 0x0D,
                          CHR 0x1C, CHR 0x1D, CHR 0x1E, CHR 0x1F, CHR 0x20,
                          CHR 0x85, CHR 0xA0])"

definition lstrip :: "string \<Rightarrow> string" where
  "lstrip s = dropWhile isspace s"

definition rstrip :: "string \<Rightarrow> string" where
  "rstrip s = rev (dropWhile isspace (rev s))"

definition strip :: "string \<Rightarrow> string" where
  \<comment> \<open>\<open>raw.strip()\<close>\<close>
  "strip s = rstrip (lstrip s)"

definition startswith :: "string \<Rightarrow> string \<Rightarrow> bool" where
  \<comment> \<open>\<open>s.startswith(p)\<close>\<close>
  "startswith s p = (take (length p) s = p)"

fun contains :: "string \<Rightarrow> string \<Rightarrow> bool" where
  \<comment> \<open>\<open>p in s\<close>: \<open>p\<close> occurs in \<open>s\<close> as a substring\<close>
  "contains [] p = (p = [])"
| "contains (c # cs) p = (startswith (c # cs) p \<or> contains cs p)"

section \<open>The identifier normalizer\<close>

subsection \<open>The regular expression \<open>https?://t\.me/(.+)\<close>\<close>

fun lit :: "string \<Rightarrow> string \<Rightarrow> string option" where
  \<comment> \<open>match a literal at the start; the rest of the subject, or no match\<close>
  "lit [] s = Some s"
| "lit (p # ps) [] = None"
| "lit (p # ps) (c # cs) = (if p = c then lit ps cs else None)"

definition dot_plus :: "string \<Rightarrow> string option" where
  \<comment> \<open>the group \<open>(.+)\<close> closing the pattern: greedy, one character at least, and
      \<open>.\<close> matches every character but the line feed\<close>
  "dot_plus s = (let g = takeWhile (\<lambda>c. c \<noteq> CHR 0x0A) s in if g = [] then None else Some g)"

definition tme_tail :: "string \<Rightarrow> string option" where
  \<comment> \<open>\<open>://t\.me/(.+)\<close>\<close>
  "tme_tail s = (case lit ''://t.me/'' s of None \<Rightarrow> None | Some p \<Rightarrow> dot_plus p)"

definition re_match_tme :: "string \<Rightarrow> string option" where
  \<comment> \<open>\<open>re.match(r"https?://t\.me/(.+)", raw)\<close>, anchored at the start: group 1 of the
      match, or \<open>None\<close>. The optional \<open>s\<close> is tried first and given back when the rest
      of the pattern fails after it.\<close>
  "re_match_tme raw =
     (case lit ''http'' raw of
        None \<Rightarrow> None
      | Some r \<Rightarrow>
          (case lit ''s'' r of
             Some r' \<Rightarrow> (case tme_tail r' of Some g \<Rightarrow> Some g | None \<Rightarrow> tme_tail r)
           | None \<Rightarrow> tme_tail r))"

subsection \<open>\<open>parse_channel_identifier\<close>\<close>

definition parse_channel_identifier :: "string \<Rightarrow> string" where
  "parse_channel_identifier raw0 =
     (let raw = strip raw0 in
      case re_match_tme raw of
        Some g \<Rightarrow> g
      | None \<Rightarrow> if startswith raw ''@'' then drop 1 raw else raw)"

section \<open>Exceptions, messages and the remote client\<close>

text \<open>
  The exceptions follow the class hierarchy of Python: \<open>exception\<close> holds the
  subclasses of \<open>Exception\<close>, the ones that \<open>except Exception\<close> catches, and
  \<open>exn\<close> is what can leave \<open>export_channel_messages\<close>: \<open>SystemExit\<close>, which is
  not an \<open>Exception\<close>, or an \<open>Exception\<close>. The client's operations fail with an
  \<open>exception\<close>; an interrupt of the process (\<open>KeyboardInterrupt\<close>, a cancelled
  task) is outside the model.
\<close>

datatype exception =
    ValueError
  | UserAlreadyParticipantError
  | OtherError string
    \<comment> \<open>any other subclass of \<open>Exception\<close>, with the name of its class\<close>

datatype exn =
    SystemExit string
  | Exception exception

record 'd tl_message =
  msg_id :: int
  date :: 'd
  message :: "string option"
  caption :: "string option"
    \<comment> \<open>\<open>None\<close>: the attribute is missing or is \<open>None\<close>\<close>

record environ =
  TELEGRAM_API_ID :: "string option"
  TELEGRAM_API_HASH :: "string option"
  TELEGRAM_SESSION :: "string option"

text \<open>
  The client's operations, each with the exception it may raise. A history is the list
  of the messages the iterator yields, oldest first, and how it ends: exhausted
  (\<open>None\<close>) or raising.
\<close>

record ('e, 'd) client =
  connect :: "exception option"
  get_entity :: "string \<Rightarrow> exception + 'e"
  join_channel :: "'e \<Rightarrow> exception option"
  iter_messages :: "'e \<Rightarrow> 'd tl_message list \<times> exception option"

datatype 'e net_call = Connect | GetEntity string | Join 'e | IterMessages 'e | Disconnect

datatype notice =
    Progress nat  \<comment> \<open>\<open>Wrote {count} messages so far\<close>\<close>
  | Done nat string  \<comment> \<open>\<open>Done. Wrote {count} messages to {output_path}\<close>\<close>

record 'e world =
  out_file :: "string option"
    \<comment> \<open>what the file at the output path holds; \<open>None\<close>: there is no such file\<close>
  sink_open :: bool
  parent_dirs :: bool
    \<comment> \<open>the directories above the output path exist\<close>
  net :: "'e net_call list"
  console :: "notice list"

record session =
  count :: nat
  sink :: "string list"
    \<comment> \<open>the open file \<open>f\<close>: the arguments of its \<open>write\<close> calls, in order\<close>
  printed :: "notice list"

section \<open>The membership resolver\<close>

definition ensure_joined ::
  "('e, 'd) client \<Rightarrow> string \<Rightarrow> bool \<Rightarrow> 'e world \<Rightarrow> (exception + 'e) \<times> 'e world" where
  \<comment> \<open>the two handlers are \<open>except UserAlreadyParticipantError\<close> and
      \<open>except Exception\<close>; the outcome of the join is an \<open>exception\<close>, so both apply\<close>
  "ensure_joined cl channel try_join w =
     (let w1 = w\<lparr>net := net w @ [GetEntity channel]\<rparr> in
      case get_entity cl channel of
        Inl e \<Rightarrow> (Inl e, w1)
      | Inr entity \<Rightarrow>
          if try_join then
            (let w2 = w1\<lparr>net := net w1 @ [Join entity]\<rparr> in
             case join_channel cl entity of
               None \<Rightarrow> (Inr entity, w2)
             | Some UserAlreadyParticipantError \<Rightarrow> (Inr entity, w2)
             | Some _ \<Rightarrow> (Inr entity, w2))
          else (Inr entity, w1))"

section \<open>The export pipeline\<close>

definition digit :: "nat \<Rightarrow> char" where
  "digit d = ''0123456789'' ! d"

fun str_nat :: "nat \<Rightarrow> string" where
  "str_nat n = (if n < 10 then [digit n] else str_nat (n div 10) @ [digit (n mod 10)])"

declare str_nat.simps [simp del]

definition str_int :: "int \<Rightarrow> string" where
  \<comment> \<open>an integer in an f-string\<close>
  "str_int i = (if i < 0 then CHR ''-'' # str_nat (nat (- i)) else str_nat (nat i))"

definition meta_line :: "('d \<Rightarrow> string) \<Rightarrow> 'd tl_message \<Rightarrow> string" where
  \<comment> \<open>\<open>f"[id:{msg.id} | date:{msg.date.isoformat()}]"\<close>, with \<open>isoformat\<close> a parameter\<close>
  "meta_line isoformat m = ''[id:'' @ str_int (msg_id m) @ '' | date:'' @ isoformat (date m) @ '']''"

definition extract_text :: "'d tl_message \<Rightarrow> string" where
  "extract_text m =
     (let text = (case message m of None \<Rightarrow> [] | Some t \<Rightarrow> t);
          text = (if text = [] then
                    (case caption m of
                       None \<Rightarrow> text
                     | Some c \<Rightarrow> if c \<noteq> [] then c else text)
                  else text)
      in text)"

definition export_step ::
  "bool \<Rightarrow> string \<Rightarrow> ('d \<Rightarrow> string) \<Rightarrow> 'd tl_message \<Rightarrow> session \<Rightarrow> session" where
  \<comment> \<open>the body of the loop, for one message\<close>
  "export_step include_meta separator isoformat m s =
     (let text = extract_text m in
      if text = [] then s
      else
        let s1 = (if include_meta
                  then s\<lparr>sink := sink s @ [meta_line isoformat m @ [CHR 0x0A]]\<rparr> else s);
            s2 = s1\<lparr>sink := sink s1 @ [text]\<rparr>;
            s3 = s2\<lparr>sink := sink s2 @ [separator]\<rparr>;
            s4 = s3\<lparr>count := count s3 + 1\<rparr>
        in if count s4 mod 500 = 0 then s4\<lparr>printed := printed s4 @ [Progress (count s4)]\<rparr>
           else s4)"

fun export_loop ::
  "bool \<Rightarrow> string \<Rightarrow> ('d \<Rightarrow> string) \<Rightarrow> 'd tl_message list \<Rightarrow> session \<Rightarrow> session" where
  "export_loop include_meta separator isoformat [] s = s"
| "export_loop include_meta separator isoformat (m # ms) s =
     export_loop include_meta separator isoformat ms
       (export_step include_meta separator isoformat m s)"

definition missing_credentials :: string where
  "missing_credentials =
     ''Missing TELEGRAM_API_ID/TELEGRAM_API_HASH env vars. Get them from https://my.telegram.org''"

definition disconnect :: "'e world \<Rightarrow> 'e world" where
  "disconnect w = w\<lparr>net := net w @ [Disconnect]\<rparr>"

definition export_channel_messages ::
  "(string \<Rightarrow> int option) \<Rightarrow> ('d \<Rightarrow> string) \<Rightarrow> environ \<Rightarrow> ('e, 'd) client \<Rightarrow>
   string \<Rightarrow> string \<Rightarrow> string \<Rightarrow> bool \<Rightarrow> bool \<Rightarrow> 'e world \<Rightarrow> exn option \<times> 'e world" where
  \<comment> \<open>\<open>py_int\<close> is the builtin \<open>int\<close> on a string (\<open>None\<close>: it raises \<open>ValueError\<close>).
      The result is the exception that leaves the function, if any, and the world after.\<close>
  "export_channel_messages py_int isoformat env cl channel output_path separator
       include_meta try_join w =
     (case py_int (case TELEGRAM_API_ID env of None \<Rightarrow> ''0'' | Some v \<Rightarrow> v) of
        None \<Rightarrow> (Some (Exception ValueError), w)
      | Some api_id \<Rightarrow>
          if api_id = 0 \<or> TELEGRAM_API_HASH env = None \<or> TELEGRAM_API_HASH env = Some []
          then (Some (SystemExit missing_credentials), w)
          else
            let channel_norm = parse_channel_identifier channel;
                w1 = w\<lparr>parent_dirs := True\<rparr>;
                w2 = w1\<lparr>net := net w1 @ [Connect]\<rparr>
            in case connect cl of
                 Some e \<Rightarrow> (Some (Exception e), w2)
               | None \<Rightarrow>
                   (case ensure_joined cl channel_norm try_join w2 of
                      (Inl e, w3) \<Rightarrow> (Some (Exception e), disconnect w3)
                    | (Inr entity, w3) \<Rightarrow>
                        let w4 = w3\<lparr>out_file := Some [], sink_open := True\<rparr>;
                            w5 = w4\<lparr>net := net w4 @ [IterMessages entity]\<rparr>;
                            (msgs, fin) = iter_messages cl entity;
                            s = export_loop include_meta separator isoformat msgs
                                  \<lparr>count = 0, sink = [], printed = []\<rparr>;
                            w6 = w5\<lparr>console := console w5 @ printed s\<rparr>;
                            w7 = w6\<lparr>out_file := Some (concat (sink s)), sink_open := False\<rparr>
                        in case fin of
                             Some e \<Rightarrow> (Some (Exception e), disconnect w7)
                           | None \<Rightarrow>
                               (None, disconnect
                                  (w7\<lparr>console := console w7 @ [Done (count s) output_path]\<rparr>))))"

section \<open>The specification's vocabulary\<close>

definition bare_name :: "string \<Rightarrow> bool" where
  \<comment> \<open>a channel name in bare form: not empty, trimmed, on one line, neither
      \<open>@\<close>-prefixed nor a t.me URL\<close>
  "bare_name name =
     (name \<noteq> [] \<and> strip name = name \<and> CHR 0x0A \<notin> set name \<and>
      \<not> startswith name ''@'' \<and> re_match_tme name = None)"

definition has_body :: "'d tl_message \<Rightarrow> bool" where
  "has_body m = (case message m of None \<Rightarrow> False | Some t \<Rightarrow> t \<noteq> [])"

definition has_caption :: "'d tl_message \<Rightarrow> bool" where
  "has_caption m = (case caption m of None \<Rightarrow> False | Some c \<Rightarrow> c \<noteq> [])"

definition exportable :: "'d tl_message \<Rightarrow> bool" where
  \<comment> \<open>the body is not empty or, failing that, the caption is present and not empty\<close>
  "exportable m = (has_body m \<or> has_caption m)"

definition exportable_text :: "'d tl_message \<Rightarrow> string" where
  \<comment> \<open>the fallback chain of the specification, for an exportable message\<close>
  "exportable_text m =
     (if has_body m then (case message m of Some t \<Rightarrow> t | None \<Rightarrow> [])
      else (case caption m of Some c \<Rightarrow> c | None \<Rightarrow> []))"

definition export_record ::
  "bool \<Rightarrow> string \<Rightarrow> ('d \<Rightarrow> string) \<Rightarrow> 'd tl_message \<Rightarrow> string" where
  \<comment> \<open>an ExportRecord: the optional metadata line, the text, the separator\<close>
  "export_record include_meta separator isoformat m =
     (if include_meta
      then ''[id:'' @ str_int (msg_id m) @ '' | date:'' @ isoformat (date m) @ '']'' @ [CHR 0x0A]
      else []) @ exportable_text m @ separator"




definition credentials_ok :: "(string \<Rightarrow> int option) \<Rightarrow> environ \<Rightarrow> bool" where
  "credentials_ok py_int env =
     ((case py_int (case TELEGRAM_API_ID env of None \<Rightarrow> ''0'' | Some v \<Rightarrow> v) of
         None \<Rightarrow> False | Some api_id \<Rightarrow> api_id \<noteq> 0) \<and>
      (case TELEGRAM_API_HASH env of None \<Rightarrow> False | Some h \<Rightarrow> h \<noteq> []))"

definition resolves :: "('e, 'd) client \<Rightarrow> string \<Rightarrow> 'e \<Rightarrow> bool" where
  \<comment> \<open>the client connects and resolves the normalized identifier to the entity\<close>
  "resolves cl channel entity =
     (connect cl = None \<and> get_entity cl (parse_channel_identifier channel) = Inr entity)"

section \<open>A scenario\<close>

text \<open>
  The scenario of the specification: two messages, the second with a caption only,
  and a third message without any text; a client that knows one channel.
\<close>

definition scenario_messages :: "string tl_message list" where
  "scenario_messages =
     [\<lparr>msg_id = 1, date = ''2024-01-01T00:00:00'', message = Some ''hello'', caption = None\<rparr>,
      \<lparr>msg_id = 2, date = ''2024-01-02T00:00:00'', message = Some [],
        caption = Some ''pic caption''\<rparr>,
      \<lparr>msg_id = 3, date = ''2024-01-03T00:00:00'', message = None, caption = None\<rparr>]"

definition scenario_client ::
  "exception option \<Rightarrow> exception option \<Rightarrow> (nat, string) client" where
  "scenario_client join_result fin =
     \<lparr>connect = None,
      get_entity = (\<lambda>c. if c = ''exampleChan'' then Inr 7 else Inl ValueError),
      join_channel = (\<lambda>_. join_result),
      iter_messages = (\<lambda>_. (scenario_messages, fin))\<rparr>"

definition scenario_env :: environ where
  "scenario_env =
     \<lparr>TELEGRAM_API_ID = Some ''12345'', TELEGRAM_API_HASH = Some ''0123abcd'',
      TELEGRAM_SESSION = None\<rparr>"

definition scenario_int :: "string \<Rightarrow> int option" where
  "scenario_int v = (if v = ''12345'' then Some 12345 else if v = ''0'' then Some 0 else None)"

definition scenario_world :: "nat world" where
  \<comment> \<open>a world that holds the file of an earlier run\<close>
  "scenario_world =
     \<lparr>out_file = Some ''an older export'', sink_open = False, parent_dirs = True,
      net = [], console = []\<rparr>"

definition fresh_world :: "nat world" where
  \<comment> \<open>a world without the output file and without the directories above it\<close>
  "fresh_world =
     \<lparr>out_file = None, sink_open = False, parent_dirs = False, net = [], console = []\<rparr>"




section \<open>Properties of the strings\<close>

lemma lstrip_id: "s = [] \<or> \<not> isspace (hd s) \<Longrightarrow> lstrip s = s"
  by (cases s) (auto simp: lstrip_def)

lemma rstrip_id: "s = [] \<or> \<not> isspace (last s) \<Longrightarrow> rstrip s = s"
proof (cases "s = []")
  case True
  then show ?thesis by (simp add: rstrip_def)
next
  case False
  assume "s = [] \<or> \<not> isspace (last s)"
  with False have "\<not> isspace (hd (rev s))" by (simp add: hd_rev)
  moreover from False have "rev s \<noteq> []" by simp
  ultimately have "dropWhile isspace (rev s) = rev s" by (cases "rev s") auto
  then show ?thesis by (simp add: rstrip_def)
qed

lemma lstrip_hd: "lstrip s \<noteq> [] \<Longrightarrow> \<not> isspace (hd (lstrip s))"
  unfolding lstrip_def by (rule hd_dropWhile)

lemma rstrip_last: "rstrip s \<noteq> [] \<Longrightarrow> \<not> isspace (last (rstrip s))"
  unfolding rstrip_def by (simp add: last_rev hd_dropWhile)

lemma rstrip_prefix: "\<exists>t. s = rstrip s @ t"
proof -
  have "rev (takeWhile isspace (rev s) @ dropWhile isspace (rev s)) = s" by simp
  then have "rstrip s @ rev (takeWhile isspace (rev s)) = s"
    unfolding rev_append rstrip_def .
  then show ?thesis by metis
qed

lemma rstrip_hd: "rstrip s \<noteq> [] \<Longrightarrow> hd (rstrip s) = hd s"
proof -
  assume ne: "rstrip s \<noteq> []"
  obtain t where "s = rstrip s @ t" using rstrip_prefix by blast
  then have "hd s = hd (rstrip s @ t)" by simp
  with ne show ?thesis by simp
qed

lemma strip_ends:
  assumes "strip s \<noteq> []"
  shows "\<not> isspace (hd (strip s))" and "\<not> isspace (last (strip s))"
proof -
  from assms have ne: "rstrip (lstrip s) \<noteq> []" by (simp add: strip_def)
  then have l: "lstrip s \<noteq> []" by (auto simp: rstrip_def)
  from ne have "hd (rstrip (lstrip s)) = hd (lstrip s)" by (rule rstrip_hd)
  with lstrip_hd [OF l] show "\<not> isspace (hd (strip s))" by (simp add: strip_def)
  from rstrip_last [OF ne] show "\<not> isspace (last (strip s))" by (simp add: strip_def)
qed

lemma strip_id: "s = [] \<or> (\<not> isspace (hd s) \<and> \<not> isspace (last s)) \<Longrightarrow> strip s = s"
  by (auto simp: strip_def lstrip_id rstrip_id)

lemma strip_strip: "strip (strip s) = strip s"
  using strip_ends [of s] by (intro strip_id) blast

lemma lit_append: "lit p (p @ s) = Some s"
  by (induction p) auto

lemma lit_Some: "lit p s = Some r \<Longrightarrow> s = p @ r"
  by (induction p s rule: lit.induct) (auto split: if_splits)

lemma dot_plus_line:
  "p \<noteq> [] \<Longrightarrow> CHR 0x0A \<notin> set p \<Longrightarrow> rest = [] \<or> hd rest = CHR 0x0A \<Longrightarrow> dot_plus (p @ rest) = Some p"
proof -
  assume p: "p \<noteq> []" and nl: "CHR 0x0A \<notin> set p" and r: "rest = [] \<or> hd rest = CHR 0x0A"
  from nl have "\<forall>c\<in>set p. c \<noteq> CHR 0x0A" by auto
  then have "takeWhile (\<lambda>c. c \<noteq> CHR 0x0A) (p @ rest) = p @ takeWhile (\<lambda>c. c \<noteq> CHR 0x0A) rest"
    by simp
  moreover from r have "takeWhile (\<lambda>c. c \<noteq> CHR 0x0A) rest = []" by (cases rest) auto
  ultimately show ?thesis using p by (simp add: dot_plus_def)
qed

lemma re_match_https:
  "p \<noteq> [] \<Longrightarrow> CHR 0x0A \<notin> set p \<Longrightarrow> rest = [] \<or> hd rest = CHR 0x0A \<Longrightarrow>
   re_match_tme (''https://t.me/'' @ p @ rest) = Some p"
  using dot_plus_line [of p rest] by (simp add: re_match_tme_def tme_tail_def)

lemma re_match_http:
  "p \<noteq> [] \<Longrightarrow> CHR 0x0A \<notin> set p \<Longrightarrow> rest = [] \<or> hd rest = CHR 0x0A \<Longrightarrow>
   re_match_tme (''http://t.me/'' @ p @ rest) = Some p"
  using dot_plus_line [of p rest] by (simp add: re_match_tme_def tme_tail_def)

lemma re_match_at: "re_match_tme (CHR ''@'' # r) = None"
  by (simp add: re_match_tme_def)

lemma startswith_iff: "startswith s p \<longleftrightarrow> (\<exists>b. s = p @ b)"
proof
  assume "startswith s p"
  then have "s = p @ drop (length p) s"
    by (metis append_take_drop_id startswith_def)
  then show "\<exists>b. s = p @ b" ..
next
  assume "\<exists>b. s = p @ b"
  then show "startswith s p" by (auto simp: startswith_def)
qed

lemma contains_iff: "contains s p \<longleftrightarrow> (\<exists>a b. s = a @ p @ b)"
proof (induction s)
  case Nil
  then show ?case by auto
next
  case (Cons c cs)
  show ?case
  proof
    assume "contains (c # cs) p"
    then consider "startswith (c # cs) p" | "contains cs p" by auto
    then show "\<exists>a b. c # cs = a @ p @ b"
    proof cases
      case 1
      then obtain b where "c # cs = [] @ p @ b" by (auto simp: startswith_iff)
      then show ?thesis by blast
    next
      case 2
      with Cons.IH obtain a b where "cs = a @ p @ b" by blast
      then have "c # cs = (c # a) @ p @ b" by simp
      then show ?thesis by blast
    qed
  next
    assume "\<exists>a b. c # cs = a @ p @ b"
    then obtain a b where ab: "c # cs = a @ p @ b" by blast
    show "contains (c # cs) p"
    proof (cases a)
      case Nil
      with ab have "startswith (c # cs) p" by (auto simp: startswith_iff)
      then show ?thesis by simp
    next
      case (Cons d ds)
      with ab have "cs = ds @ p @ b" by simp
      with Cons.IH have "contains cs p" by blast
      then show ?thesis by simp
    qed
  qed
qed

lemma contains_suffix: "contains s p \<Longrightarrow> contains (a @ s) p"
  unfolding contains_iff by (metis append.assoc)

lemma contains_prefix: "contains s p \<Longrightarrow> contains (s @ b) p"
  unfolding contains_iff by (metis append.assoc)

lemma contains_takeWhile: "contains (takeWhile P s) p \<Longrightarrow> contains s p"
  using contains_prefix [of "takeWhile P s" p "dropWhile P s"] by simp

lemma tme_tail_Some:
  "tme_tail s = Some g \<longleftrightarrow>
   (\<exists>rest. s = ''://t.me/'' @ rest \<and> g = takeWhile (\<lambda>c. c \<noteq> CHR 0x0A) rest \<and> g \<noteq> [])"
proof
  assume "tme_tail s = Some g"
  then obtain rest where l: "lit ''://t.me/'' s = Some rest" and d: "dot_plus rest = Some g"
    by (auto simp: tme_tail_def split: option.splits)
  from l have "s = ''://t.me/'' @ rest" by (rule lit_Some)
  moreover from d have "g = takeWhile (\<lambda>c. c \<noteq> CHR 0x0A) rest \<and> g \<noteq> []"
    by (auto simp: dot_plus_def Let_def split: if_splits)
  ultimately show "\<exists>rest. s = ''://t.me/'' @ rest \<and> g = takeWhile (\<lambda>c. c \<noteq> CHR 0x0A) rest \<and> g \<noteq> []"
    by blast
next
  assume "\<exists>rest. s = ''://t.me/'' @ rest \<and> g = takeWhile (\<lambda>c. c \<noteq> CHR 0x0A) rest \<and> g \<noteq> []"
  then obtain rest where "s = ''://t.me/'' @ rest" "g = takeWhile (\<lambda>c. c \<noteq> CHR 0x0A) rest" "g \<noteq> []"
    by blast
  then show "tme_tail s = Some g"
    using lit_append [of "''://t.me/''" rest] by (simp add: tme_tail_def dot_plus_def)
qed

lemma re_match_tme_Some:
  "re_match_tme s = Some g \<longleftrightarrow>
   (\<exists>sch rest. (sch = ''http://t.me/'' \<or> sch = ''https://t.me/'') \<and> s = sch @ rest \<and>
      g = takeWhile (\<lambda>c. c \<noteq> CHR 0x0A) rest \<and> g \<noteq> [])"
  (is "?L \<longleftrightarrow> ?R")
proof
  assume ?L
  then obtain r where r: "lit ''http'' s = Some r"
    by (auto simp: re_match_tme_def split: option.splits)
  then have s: "s = ''http'' @ r" by (rule lit_Some)
  from \<open>?L\<close> r consider r' where "lit ''s'' r = Some r'" "tme_tail r' = Some g"
    | "tme_tail r = Some g"
    by (auto simp: re_match_tme_def split: option.splits)
  then show ?R
  proof cases
    case 1
    from 1(1) have "r = ''s'' @ r'" by (rule lit_Some)
    moreover from 1(2) obtain rest where "r' = ''://t.me/'' @ rest"
      "g = takeWhile (\<lambda>c. c \<noteq> CHR 0x0A) rest" "g \<noteq> []" by (auto simp: tme_tail_Some)
    ultimately have "s = ''https://t.me/'' @ rest" using s by simp
    with \<open>g = _\<close> \<open>g \<noteq> []\<close> show ?thesis by blast
  next
    case 2
    then obtain rest where "r = ''://t.me/'' @ rest"
      "g = takeWhile (\<lambda>c. c \<noteq> CHR 0x0A) rest" "g \<noteq> []" by (auto simp: tme_tail_Some)
    with s have "s = ''http://t.me/'' @ rest" by simp
    with \<open>g = _\<close> \<open>g \<noteq> []\<close> show ?thesis by blast
  qed
next
  assume ?R
  then obtain sch rest where sch: "sch = ''http://t.me/'' \<or> sch = ''https://t.me/''"
    and s: "s = sch @ rest" and g: "g = takeWhile (\<lambda>c. c \<noteq> CHR 0x0A) rest" "g \<noteq> []"
    by blast
  from g have "dot_plus rest = Some g" by (simp add: dot_plus_def)
  with sch s show ?L by (auto simp: re_match_tme_def tme_tail_def)
qed

section \<open>Properties of the normalizer\<close>

lemma strip_prefixed:
  assumes "name \<noteq> []" "strip name = name" "\<not> isspace c"
  shows "strip (c # p @ name) = c # p @ name"
proof -
  from assms(1,2) strip_ends(2) [of name] have "\<not> isspace (last name)" by simp
  with assms(1,3) show ?thesis by (intro strip_id) simp
qed

lemma parse_rule_a:
  assumes "sch = ''http://t.me/'' \<or> sch = ''https://t.me/''"
    and "strip raw = sch @ p @ rest" and "p \<noteq> []" and "CHR 0x0A \<notin> set p"
    and "rest = [] \<or> hd rest = CHR 0x0A"
  shows "parse_channel_identifier raw = p"
  using assms re_match_http [of p rest] re_match_https [of p rest]
  by (auto simp: parse_channel_identifier_def)

lemma parse_rule_b: "strip raw = CHR ''@'' # r \<Longrightarrow> parse_channel_identifier raw = r"
  by (simp add: parse_channel_identifier_def re_match_at startswith_def)

lemma parse_rule_c:
  "re_match_tme (strip raw) = None \<Longrightarrow> \<not> startswith (strip raw) ''@'' \<Longrightarrow>
   parse_channel_identifier raw = strip raw"
  by (simp add: parse_channel_identifier_def)

lemma parse_cases:
  obtains (url) g where "re_match_tme (strip raw) = Some g" "parse_channel_identifier raw = g"
  | (at) r where "re_match_tme (strip raw) = None" "strip raw = CHR ''@'' # r"
      "parse_channel_identifier raw = r"
  | (bare) "re_match_tme (strip raw) = None" "\<not> startswith (strip raw) ''@''"
      "parse_channel_identifier raw = strip raw"
proof (cases "re_match_tme (strip raw)")
  case (Some g)
  then show ?thesis using url by (simp add: parse_channel_identifier_def)
next
  case None
  show ?thesis
  proof (cases "startswith (strip raw) ''@''")
    case True
    then obtain r where "strip raw = CHR ''@'' # r" by (auto simp: startswith_iff)
    with None show ?thesis using at by (simp add: parse_rule_b)
  next
    case False
    with None show ?thesis using bare by (simp add: parse_rule_c)
  qed
qed

lemma url_at_matches:
  assumes "sch = ''http://t.me/'' \<or> sch = ''https://t.me/''" and "startswith s (sch @ ''@'')"
  shows "re_match_tme s \<noteq> None"
proof -
  from assms(2) obtain b where "s = sch @ CHR ''@'' # b" by (auto simp: startswith_iff)
  moreover have "takeWhile (\<lambda>c. c \<noteq> CHR 0x0A) (CHR ''@'' # b) \<noteq> []" by simp
  ultimately have "re_match_tme s = Some (takeWhile (\<lambda>c. c \<noteq> CHR 0x0A) (CHR ''@'' # b))"
    unfolding re_match_tme_Some using assms(1) by blast
  then show ?thesis by simp
qed

lemma leading_at_iff:
  "startswith (parse_channel_identifier raw) ''@'' \<longleftrightarrow>
     startswith (strip raw) ''@@'' \<or> startswith (strip raw) ''http://t.me/@'' \<or>
     startswith (strip raw) ''https://t.me/@''"
proof (cases raw rule: parse_cases)
  case (url g)
  from url(1) obtain sch rest where sch: "sch = ''http://t.me/'' \<or> sch = ''https://t.me/''"
    and s: "strip raw = sch @ rest" and g: "g = takeWhile (\<lambda>c. c \<noteq> CHR 0x0A) rest" "g \<noteq> []"
    by (auto simp: re_match_tme_Some)
  have "startswith g ''@'' \<longleftrightarrow> startswith rest ''@''"
    using g by (cases rest) (auto simp: startswith_def)
  moreover have "startswith rest ''@'' \<longleftrightarrow>
     startswith (strip raw) ''@@'' \<or> startswith (strip raw) ''http://t.me/@'' \<or>
     startswith (strip raw) ''https://t.me/@''"
    using sch s by (cases rest) (auto simp: startswith_def)
  ultimately show ?thesis using url(2) by simp
next
  case (at r)
  then show ?thesis by (cases r) (auto simp: startswith_def)
next
  case bare
  from bare(1) have "\<not> startswith (strip raw) ''http://t.me/@''"
    using url_at_matches [of "''http://t.me/''" "strip raw"] by auto
  moreover from bare(1) have "\<not> startswith (strip raw) ''https://t.me/@''"
    using url_at_matches [of "''https://t.me/''" "strip raw"] by auto
  moreover from bare(2) have "\<not> startswith (strip raw) ''@@''"
    by (auto simp: startswith_iff)
  ultimately show ?thesis using bare(2,3) by simp
qed

lemma no_scheme_sufficient:
  assumes "\<not> contains (strip raw) ''://'' \<or>
     (\<exists>sch p. (sch = ''http://t.me/'' \<or> sch = ''https://t.me/'') \<and> strip raw = sch @ p \<and>
        \<not> startswith p [CHR 0x0A] \<and> p \<noteq> [] \<and> \<not> contains p ''://'')"
  shows "\<not> contains (parse_channel_identifier raw) ''://''"
proof (cases raw rule: parse_cases)
  case (url g)
  from url(1) obtain sch rest where sch: "sch = ''http://t.me/'' \<or> sch = ''https://t.me/''"
    and s: "strip raw = sch @ rest" and g: "g = takeWhile (\<lambda>c. c \<noteq> CHR 0x0A) rest" "g \<noteq> []"
    by (auto simp: re_match_tme_Some)
  have "contains (strip raw) ''://''"
    using sch s by (auto simp: startswith_def)
  with assms obtain sch' p where sch': "sch' = ''http://t.me/'' \<or> sch' = ''https://t.me/''"
    and p: "strip raw = sch' @ p" "\<not> contains p ''://''" by blast
  from sch sch' s p(1) have "p = rest" by auto
  with p(2) g(1) have "\<not> contains g ''://''" using contains_takeWhile by blast
  with url(2) show ?thesis by simp
next
  case (at r)
  have "\<not> contains (strip raw) ''://''"
  proof
    assume c: "contains (strip raw) ''://''"
    with assms obtain sch p where "sch = ''http://t.me/'' \<or> sch = ''https://t.me/''"
      "strip raw = sch @ p" by blast
    with at(2) show False by auto
  qed
  with at(2) have "\<not> contains r ''://''" by (simp add: startswith_def)
  with at(3) show ?thesis by simp
next
  case bare
  have "\<not> contains (strip raw) ''://''"
  proof
    assume c: "contains (strip raw) ''://''"
    with assms obtain sch p where sch: "sch = ''http://t.me/'' \<or> sch = ''https://t.me/''"
      and p: "strip raw = sch @ p" "\<not> startswith p [CHR 0x0A]" "p \<noteq> []" by blast
    from p(2,3) have "takeWhile (\<lambda>c. c \<noteq> CHR 0x0A) p \<noteq> []"
      by (cases p) (auto simp: startswith_def)
    with sch p(1) have "re_match_tme (strip raw) = Some (takeWhile (\<lambda>c. c \<noteq> CHR 0x0A) p)"
      unfolding re_match_tme_Some by blast
    with bare(1) show False by simp
  qed
  with bare(3) show ?thesis by simp
qed

lemma length_strip: "length (strip s) \<le> length s"
proof -
  have "length (strip s) \<le> length (lstrip s)"
    using length_dropWhile_le [of isspace "rev (lstrip s)"] by (simp add: strip_def rstrip_def)
  also have "\<dots> \<le> length s" by (simp add: lstrip_def length_dropWhile_le)
  finally show ?thesis .
qed

lemma parse_fixed_iff:
  "parse_channel_identifier r = r \<longleftrightarrow>
     strip r = r \<and> re_match_tme r = None \<and> \<not> startswith r ''@''"
proof
  assume "strip r = r \<and> re_match_tme r = None \<and> \<not> startswith r ''@''"
  then show "parse_channel_identifier r = r" using parse_rule_c [of r] by simp
next
  assume f: "parse_channel_identifier r = r"
  show "strip r = r \<and> re_match_tme r = None \<and> \<not> startswith r ''@''"
  proof (cases r rule: parse_cases)
    case (url g)
    from url(1) obtain sch rest where "strip r = sch @ rest" "sch = ''http://t.me/'' \<or> sch = ''https://t.me/''"
      "g = takeWhile (\<lambda>c. c \<noteq> CHR 0x0A) rest"
      by (auto simp: re_match_tme_Some)
    then have "length g < length (strip r)"
      using length_takeWhile_le [of "\<lambda>c. c \<noteq> CHR 0x0A" rest] by auto
    with length_strip [of r] url(2) f show ?thesis by simp
  next
    case (at t)
    then have "length t < length (strip r)" by simp
    with length_strip [of r] at(3) f show ?thesis by simp
  next
    case bare
    with f show ?thesis by simp
  qed
qed

lemma bare_name_forms:
  assumes b: "bare_name name"
  shows "parse_channel_identifier name = name"
    and "parse_channel_identifier (''@'' @ name) = name"
    and "parse_channel_identifier (''https://t.me/'' @ name) = name"
    and "parse_channel_identifier (''http://t.me/'' @ name) = name"
proof -
  from b have ne: "name \<noteq> []" and st: "strip name = name" and nl: "CHR 0x0A \<notin> set name"
    and at: "\<not> startswith name ''@''" and re: "re_match_tme name = None"
    by (simp_all add: bare_name_def)
  from re at st show "parse_channel_identifier name = name"
    by (simp add: parse_rule_c)
  have "strip (''@'' @ name) = ''@'' @ name"
    using strip_prefixed [OF ne st, of "CHR ''@''" "[]"] by (simp add: isspace_def)
  then show "parse_channel_identifier (''@'' @ name) = name"
    by (simp add: parse_rule_b)
  have "strip (''https://t.me/'' @ name) = ''https://t.me/'' @ name @ []"
    using strip_prefixed [OF ne st, of "CHR ''h''" "''ttps://t.me/''"] by (simp add: isspace_def)
  then show "parse_channel_identifier (''https://t.me/'' @ name) = name"
    using ne nl by (intro parse_rule_a [where sch = "''https://t.me/''" and rest = "[]"]) simp_all
  have "strip (''http://t.me/'' @ name) = ''http://t.me/'' @ name @ []"
    using strip_prefixed [OF ne st, of "CHR ''h''" "''ttp://t.me/''"] by (simp add: isspace_def)
  then show "parse_channel_identifier (''http://t.me/'' @ name) = name"
    using ne nl by (intro parse_rule_a [where sch = "''http://t.me/''" and rest = "[]"]) simp_all
qed

lemmas normalizer_defs = parse_channel_identifier_def strip_def lstrip_def rstrip_def
  isspace_def re_match_tme_def tme_tail_def dot_plus_def startswith_def

text \<open>
  Claim C3, as amended. For every bare name (not empty, trimmed, without a line feed,
  not beginning with \<open>@\<close> and not itself a t.me URL) the four forms \<open>name\<close>,
  \<open>@name\<close>, \<open>https://t.me/name\<close> and \<open>http://t.me/name\<close> are normalized to
  \<open>name\<close>. The rules apply to the trimmed input in this order: a t.me URL with the
  scheme http or https gives the first line of its path; otherwise a leading \<open>@\<close> is
  removed; otherwise the trimmed input is returned as it is.
\<close>

theorem normalizer_four_forms:
  "(bare_name name \<longrightarrow>
      parse_channel_identifier name = name \<and>
      parse_channel_identifier (''@'' @ name) = name \<and>
      parse_channel_identifier (''https://t.me/'' @ name) = name \<and>
      parse_channel_identifier (''http://t.me/'' @ name) = name) \<and>
   (\<forall>raw sch p rest.
      (sch = ''http://t.me/'' \<or> sch = ''https://t.me/'') \<and> strip raw = sch @ p @ rest \<and>
      p \<noteq> [] \<and> CHR 0x0A \<notin> set p \<and> (rest = [] \<or> hd rest = CHR 0x0A)
      \<longrightarrow> parse_channel_identifier raw = p) \<and>
   (\<forall>raw r. strip raw = ''@'' @ r \<longrightarrow> parse_channel_identifier raw = r) \<and>
   (\<forall>raw. re_match_tme (strip raw) = None \<and> \<not> startswith (strip raw) ''@''
      \<longrightarrow> parse_channel_identifier raw = strip raw)"
proof (intro conjI impI allI)
  assume b: "bare_name name"
  show "parse_channel_identifier name = name"
    by (rule bare_name_forms(1) [OF b])
  show "parse_channel_identifier (''@'' @ name) = name"
    by (rule bare_name_forms(2) [OF b])
  show "parse_channel_identifier (''https://t.me/'' @ name) = name"
    by (rule bare_name_forms(3) [OF b])
  show "parse_channel_identifier (''http://t.me/'' @ name) = name"
    by (rule bare_name_forms(4) [OF b])
next
  fix raw sch p rest
  assume "(sch = ''http://t.me/'' \<or> sch = ''https://t.me/'') \<and> strip raw = sch @ p @ rest \<and>
      p \<noteq> [] \<and> CHR 0x0A \<notin> set p \<and> (rest = [] \<or> hd rest = CHR 0x0A)"
  then show "parse_channel_identifier raw = p"
    using parse_rule_a [of sch raw p rest] by blast
next
  fix raw r
  assume "strip raw = ''@'' @ r"
  then show "parse_channel_identifier raw = r" by (simp add: parse_rule_b)
next
  fix raw
  assume "re_match_tme (strip raw) = None \<and> \<not> startswith (strip raw) ''@''"
  then show "parse_channel_identifier raw = strip raw" by (simp add: parse_rule_c)
qed

theorem normalizer_four_forms_witness:
  "bare_name ''chan'' \<and>
   parse_channel_identifier ''chan'' = ''chan'' \<and>
   parse_channel_identifier ''@chan'' = ''chan'' \<and>
   parse_channel_identifier ''https://t.me/chan'' = ''chan'' \<and>
   parse_channel_identifier ''http://t.me/chan'' = ''chan''"
proof -
  have b: "bare_name ''chan''" by (simp add: normalizer_defs bare_name_def)
  with normalizer_four_forms [of "''chan''"] show ?thesis by simp
qed

text \<open>
  The claim as stated, for every string \<open>name\<close>, fails: at the name \<open>@a\<close> the bare
  form gives \<open>a\<close>; at the empty name the URL form is returned whole; at a name of two
  lines the URL form gives the first line only; and at a name with a leading blank the
  \<open>@\<close> form keeps the blank that the bare form loses.
\<close>

theorem normalizer_four_forms_counterexample:
  "parse_channel_identifier ''@a'' \<noteq> ''@a'' \<and>
   parse_channel_identifier (''https://t.me/'' @ []) \<noteq> [] \<and>
   parse_channel_identifier (''https://t.me/'' @ [CHR ''a'', CHR 0x0A, CHR ''b''])
     \<noteq> [CHR ''a'', CHR 0x0A, CHR ''b''] \<and>
   parse_channel_identifier (''@'' @ '' a'') \<noteq> parse_channel_identifier '' a''"
  by (simp add: normalizer_defs)

text \<open>
  Claim C4, as amended. The result begins with \<open>@\<close> exactly when the trimmed input
  begins with \<open>@@\<close> or is a t.me URL whose path begins with \<open>@\<close>. The result
  contains no \<open>://\<close> when the trimmed input contains none, or when the trimmed input
  is \<open>http://t.me/\<close> or \<open>https://t.me/\<close> followed by a path that is not empty,
  does not begin with a line feed and contains no \<open>://\<close>.
\<close>

theorem normalized_at_and_scheme:
  "(startswith (parse_channel_identifier raw) ''@'' \<longleftrightarrow>
      startswith (strip raw) ''@@'' \<or> startswith (strip raw) ''http://t.me/@'' \<or>
      startswith (strip raw) ''https://t.me/@'') \<and>
   (\<not> contains (strip raw) ''://'' \<or>
      (\<exists>sch p. (sch = ''http://t.me/'' \<or> sch = ''https://t.me/'') \<and> strip raw = sch @ p \<and>
         \<not> startswith p [CHR 0x0A] \<and> p \<noteq> [] \<and> \<not> contains p ''://'')
    \<longrightarrow> \<not> contains (parse_channel_identifier raw) ''://'')"
  using leading_at_iff [of raw] no_scheme_sufficient [of raw] by blast

theorem normalized_at_and_scheme_witness:
  "\<not> startswith (parse_channel_identifier '' https://t.me/chan '') ''@'' \<and>
   \<not> contains (parse_channel_identifier '' https://t.me/chan '') ''://''"
proof -
  have s: "strip '' https://t.me/chan '' = ''https://t.me/'' @ ''chan''"
    by (simp add: normalizer_defs)
  have "\<not> startswith ''chan'' [CHR 0x0A] \<and> ''chan'' \<noteq> [] \<and> \<not> contains ''chan'' ''://''"
    by (simp add: startswith_def)
  with s have "\<exists>sch p. (sch = ''http://t.me/'' \<or> sch = ''https://t.me/'') \<and>
      strip '' https://t.me/chan '' = sch @ p \<and>
      \<not> startswith p [CHR 0x0A] \<and> p \<noteq> [] \<and> \<not> contains p ''://''" by blast
  moreover have "\<not> startswith (strip '' https://t.me/chan '') ''@@''"
    "\<not> startswith (strip '' https://t.me/chan '') ''http://t.me/@''"
    "\<not> startswith (strip '' https://t.me/chan '') ''https://t.me/@''"
    by (simp_all add: normalizer_defs)
  ultimately show ?thesis
    using normalized_at_and_scheme [of "'' https://t.me/chan ''"] by blast
qed

text \<open>
  The claim as stated, for every input, fails: \<open>@@a\<close> is normalized to \<open>@a\<close>, which
  has a leading \<open>@\<close>, and a URL of another host is returned with its scheme.
\<close>

theorem normalized_at_and_scheme_counterexample:
  "startswith (parse_channel_identifier ''@@a'') ''@'' \<and>
   contains (parse_channel_identifier ''https://example.com/x'') ''://'' \<and>
   startswith (parse_channel_identifier ''https://example.com/x'') ''https://''"
  by (simp add: normalizer_defs)

text \<open>
  Claim C5, as amended. For every input whose trimmed form matches neither the t.me URL
  pattern nor the leading \<open>@\<close>, the normalizer returns the trimmed input unchanged.
  The normalizer is idempotent at an input exactly when its result there is in normal
  form: trimmed, not beginning with \<open>@\<close> and not matching the t.me URL pattern. So it
  is at every input that matches neither pattern and at the four forms of every bare name.
\<close>

theorem normalizer_idempotence:
  "(re_match_tme (strip x) = None \<and> \<not> startswith (strip x) ''@'' \<longrightarrow>
      parse_channel_identifier x = strip x \<and>
      parse_channel_identifier (parse_channel_identifier x) = parse_channel_identifier x) \<and>
   (parse_channel_identifier (parse_channel_identifier x) = parse_channel_identifier x \<longleftrightarrow>
      strip (parse_channel_identifier x) = parse_channel_identifier x \<and>
      re_match_tme (parse_channel_identifier x) = None \<and>
      \<not> startswith (parse_channel_identifier x) ''@'') \<and>
   (bare_name name \<longrightarrow>
      parse_channel_identifier (parse_channel_identifier name) = parse_channel_identifier name \<and>
      parse_channel_identifier (parse_channel_identifier (''@'' @ name)) =
        parse_channel_identifier (''@'' @ name) \<and>
      parse_channel_identifier (parse_channel_identifier (''https://t.me/'' @ name)) =
        parse_channel_identifier (''https://t.me/'' @ name) \<and>
      parse_channel_identifier (parse_channel_identifier (''http://t.me/'' @ name)) =
        parse_channel_identifier (''http://t.me/'' @ name))"
proof (intro conjI impI)
  assume a: "re_match_tme (strip x) = None \<and> \<not> startswith (strip x) ''@''"
  then show p: "parse_channel_identifier x = strip x" by (simp add: parse_rule_c)
  from a have "parse_channel_identifier (strip x) = strip (strip x)"
    by (intro parse_rule_c) (simp_all add: strip_strip)
  with p show "parse_channel_identifier (parse_channel_identifier x) = parse_channel_identifier x"
    by (simp add: strip_strip)
next
  show "parse_channel_identifier (parse_channel_identifier x) = parse_channel_identifier x \<longleftrightarrow>
      strip (parse_channel_identifier x) = parse_channel_identifier x \<and>
      re_match_tme (parse_channel_identifier x) = None \<and>
      \<not> startswith (parse_channel_identifier x) ''@''"
    by (rule parse_fixed_iff)
next
  assume b: "bare_name name"
  show "parse_channel_identifier (parse_channel_identifier name) = parse_channel_identifier name"
    by (simp add: bare_name_forms(1) [OF b])
  show "parse_channel_identifier (parse_channel_identifier (''@'' @ name)) =
        parse_channel_identifier (''@'' @ name)"
    using bare_name_forms(1,2) [OF b] by simp
  show "parse_channel_identifier (parse_channel_identifier (''https://t.me/'' @ name)) =
        parse_channel_identifier (''https://t.me/'' @ name)"
    using bare_name_forms(1,3) [OF b] by simp
  show "parse_channel_identifier (parse_channel_identifier (''http://t.me/'' @ name)) =
        parse_channel_identifier (''http://t.me/'' @ name)"
    using bare_name_forms(1,4) [OF b] by simp
qed

theorem normalizer_idempotence_witness:
  "re_match_tme (strip '' some_channel '') = None \<and>
   \<not> startswith (strip '' some_channel '') ''@'' \<and>
   parse_channel_identifier '' some_channel '' = ''some_channel'' \<and>
   parse_channel_identifier (parse_channel_identifier '' some_channel '') =
     parse_channel_identifier '' some_channel '' \<and>
   bare_name ''chan'' \<and>
   parse_channel_identifier (parse_channel_identifier ''@chan'') =
     parse_channel_identifier ''@chan'' \<and>
   parse_channel_identifier (parse_channel_identifier ''https://t.me/chan'') =
     parse_channel_identifier ''https://t.me/chan'' \<and>
   parse_channel_identifier (parse_channel_identifier ''http://t.me/chan'') =
     parse_channel_identifier ''http://t.me/chan'' \<and>
   strip (parse_channel_identifier '' @x '') = parse_channel_identifier '' @x '' \<and>
   re_match_tme (parse_channel_identifier '' @x '') = None \<and>
   \<not> startswith (parse_channel_identifier '' @x '') ''@'' \<and>
   parse_channel_identifier (parse_channel_identifier '' @x '') =
     parse_channel_identifier '' @x ''"
proof -
  have h: "re_match_tme (strip '' some_channel '') = None \<and>
      \<not> startswith (strip '' some_channel '') ''@''"
    by (simp add: normalizer_defs)
  have s: "strip '' some_channel '' = ''some_channel''" by (simp add: normalizer_defs)
  have b: "bare_name ''chan''" by (simp add: normalizer_defs bare_name_def)
  have f: "strip (parse_channel_identifier '' @x '') = parse_channel_identifier '' @x '' \<and>
      re_match_tme (parse_channel_identifier '' @x '') = None \<and>
      \<not> startswith (parse_channel_identifier '' @x '') ''@''"
    by (simp add: normalizer_defs)
  from h s normalizer_idempotence [of "'' some_channel ''" "''chan''"]
  have 1: "parse_channel_identifier '' some_channel '' = ''some_channel'' \<and>
      parse_channel_identifier (parse_channel_identifier '' some_channel '') =
        parse_channel_identifier '' some_channel ''"
    by metis
  from b normalizer_idempotence [of "'' some_channel ''" "''chan''"]
  have 2: "parse_channel_identifier (parse_channel_identifier ''@chan'') =
       parse_channel_identifier ''@chan'' \<and>
     parse_channel_identifier (parse_channel_identifier ''https://t.me/chan'') =
       parse_channel_identifier ''https://t.me/chan'' \<and>
     parse_channel_identifier (parse_channel_identifier ''http://t.me/chan'') =
       parse_channel_identifier ''http://t.me/chan''"
    by simp
  from f normalizer_idempotence [of "'' @x ''" "''chan''"]
  have 3: "parse_channel_identifier (parse_channel_identifier '' @x '') =
     parse_channel_identifier '' @x ''"
    by blast
  from h b f 1 2 3 show ?thesis by blast
qed

text \<open>
  Idempotence for every input fails: \<open>@@a\<close> is normalized to \<open>@a\<close>, and \<open>@a\<close>
  to \<open>a\<close>; the result of the first pass still has a prefix.
\<close>

theorem normalizer_idempotent_counterexample:
  "parse_channel_identifier (parse_channel_identifier ''@@a'') \<noteq>
     parse_channel_identifier ''@@a''"
  by (simp add: normalizer_defs)

section \<open>Properties of the pipeline\<close>

lemma extract_text_exportable: "extract_text m \<noteq> [] \<longleftrightarrow> exportable m"
  by (auto simp: extract_text_def exportable_def has_body_def has_caption_def Let_def
      split: option.splits)

lemma extract_text_eq: "exportable m \<Longrightarrow> extract_text m = exportable_text m"
  by (auto simp: extract_text_def exportable_def exportable_text_def has_body_def
      has_caption_def Let_def split: option.splits)

lemma export_step_skip: "\<not> exportable m \<Longrightarrow> export_step im sep fmt m s = s"
  using extract_text_exportable [of m] by (simp add: export_step_def)

lemma export_step_sink:
  "exportable m \<Longrightarrow>
   sink (export_step im sep fmt m s) =
     sink s @ (if im then [meta_line fmt m @ [CHR 0x0A]] else []) @ [exportable_text m, sep]"
  using extract_text_exportable [of m] extract_text_eq [of m]
  by (simp add: export_step_def Let_def)

lemma export_step_count:
  "exportable m \<Longrightarrow> count (export_step im sep fmt m s) = count s + 1"
  using extract_text_exportable [of m] by (simp add: export_step_def Let_def)

lemma export_step_printed:
  "printed (export_step im sep fmt m s) =
     printed s @ (if exportable m \<and> (count s + 1) mod 500 = 0 then [Progress (count s + 1)] else [])"
  using extract_text_exportable [of m] by (auto simp: export_step_def Let_def)

lemma export_step_record:
  "exportable m \<Longrightarrow>
   concat (sink (export_step im sep fmt m s)) = concat (sink s) @ export_record im sep fmt m"
  by (simp add: export_step_sink export_record_def meta_line_def)

lemma export_loop_sink:
  "concat (sink (export_loop im sep fmt ms s)) =
     concat (sink s) @ concat (map (export_record im sep fmt) (filter exportable ms))"
proof (induction ms arbitrary: s)
  case Nil
  then show ?case by simp
next
  case (Cons m ms)
  show ?case
  proof (cases "exportable m")
    case True
    then show ?thesis by (simp add: Cons.IH export_step_record)
  next
    case False
    then show ?thesis by (simp add: Cons.IH export_step_skip)
  qed
qed

lemma export_loop_count:
  "count (export_loop im sep fmt ms s) = count s + length (filter exportable ms)"
proof (induction ms arbitrary: s)
  case Nil
  then show ?case by simp
next
  case (Cons m ms)
  then show ?case
    by (cases "exportable m") (simp_all add: export_step_count export_step_skip)
qed

lemma export_loop_printed:
  "printed (export_loop im sep fmt ms s) =
     printed s @ map Progress (filter (\<lambda>k. k mod 500 = 0)
       [count s + 1 ..< count s + 1 + length (filter exportable ms)])"
proof (induction ms arbitrary: s)
  case Nil
  then show ?case by simp
next
  case (Cons m ms)
  show ?case
  proof (cases "exportable m")
    case False
    then show ?thesis by (simp add: Cons.IH export_step_skip)
  next
    case True
    let ?n = "length (filter exportable ms)"
    have "[Suc (count s) ..< Suc (Suc (count s + ?n))] =
        Suc (count s) # [Suc (Suc (count s)) ..< Suc (Suc (count s + ?n))]"
      by (rule upt_conv_Cons) simp
    with True show ?thesis
      by (simp add: Cons.IH export_step_count export_step_printed)
  qed
qed

lemma ensure_joined_entity:
  "get_entity cl ch = Inr entity \<Longrightarrow> fst (ensure_joined cl ch tj w) = Inr entity"
  by (simp add: ensure_joined_def Let_def split: option.splits exception.splits)

lemma ensure_joined_error:
  "get_entity cl ch = Inl e \<Longrightarrow> ensure_joined cl ch tj w = (Inl e, w\<lparr>net := net w @ [GetEntity ch]\<rparr>)"
  by (simp add: ensure_joined_def Let_def)

lemma ensure_joined_world:
  "\<exists>calls. snd (ensure_joined cl ch tj w) = w\<lparr>net := net w @ calls\<rparr>"
proof (cases "get_entity cl ch")
  case (Inl e)
  then show ?thesis by (metis ensure_joined_error snd_conv)
next
  case (Inr entity)
  show ?thesis
  proof (cases tj)
    case True
    with Inr have "snd (ensure_joined cl ch tj w) = w\<lparr>net := net w @ [GetEntity ch, Join entity]\<rparr>"
      by (simp add: ensure_joined_def Let_def split: option.splits exception.splits)
    then show ?thesis by blast
  next
    case False
    with Inr have "snd (ensure_joined cl ch tj w) = w\<lparr>net := net w @ [GetEntity ch]\<rparr>"
      by (simp add: ensure_joined_def Let_def)
    then show ?thesis by blast
  qed
qed

lemma run_unready:
  assumes "\<not> credentials_ok py_int env"
  shows "snd (export_channel_messages py_int fmt env cl channel path sep im tj w) = w"
    and "fst (export_channel_messages py_int fmt env cl channel path sep im tj w) =
           Some (Exception ValueError) \<or>
         fst (export_channel_messages py_int fmt env cl channel path sep im tj w) =
           Some (SystemExit missing_credentials)"
  using assms
  by (auto simp: export_channel_messages_def credentials_ok_def split: option.splits)

lemma run_unresolved:
  assumes "credentials_ok py_int env" and "connect cl = None"
    and "get_entity cl (parse_channel_identifier channel) = Inl e"
  shows "export_channel_messages py_int fmt env cl channel path sep im tj w =
     (Some (Exception e), w\<lparr>parent_dirs := True,
        net := net w @ [Connect, GetEntity (parse_channel_identifier channel), Disconnect]\<rparr>)"
  using assms
  by (auto simp: export_channel_messages_def credentials_ok_def ensure_joined_error Let_def
      disconnect_def split: option.splits)

lemma run_resolved:
  assumes "credentials_ok py_int env" and "resolves cl channel entity"
    and "iter_messages cl entity = (msgs, fin)"
  shows "\<exists>calls. export_channel_messages py_int fmt env cl channel path sep im tj w =
     (map_option Exception fin,
      w\<lparr>out_file := Some (concat (sink (export_loop im sep fmt msgs
            \<lparr>count = 0, sink = [], printed = []\<rparr>))),
        sink_open := False, parent_dirs := True, net := net w @ calls,
        console := console w @
          printed (export_loop im sep fmt msgs \<lparr>count = 0, sink = [], printed = []\<rparr>) @
          (case fin of
             None \<Rightarrow> [Done (count (export_loop im sep fmt msgs
                        \<lparr>count = 0, sink = [], printed = []\<rparr>)) path]
           | Some e \<Rightarrow> [])\<rparr>)"
proof -
  let ?ch = "parse_channel_identifier channel"
  let ?w2 = "w\<lparr>parent_dirs := True, net := net w @ [Connect]\<rparr>"
  from assms(2) have c: "connect cl = None" and g: "get_entity cl ?ch = Inr entity"
    by (simp_all add: resolves_def)
  obtain calls where "snd (ensure_joined cl ?ch tj ?w2) = ?w2\<lparr>net := net ?w2 @ calls\<rparr>"
    using ensure_joined_world by blast
  with ensure_joined_entity [OF g, of tj ?w2]
  have ej: "ensure_joined cl ?ch tj ?w2 = (Inr entity, ?w2\<lparr>net := net ?w2 @ calls\<rparr>)"
    by (metis prod.collapse)
  from assms(1) obtain api_id where
    "py_int (case TELEGRAM_API_ID env of None \<Rightarrow> ''0'' | Some v \<Rightarrow> v) = Some api_id"
    "api_id \<noteq> 0" "TELEGRAM_API_HASH env \<noteq> None" "TELEGRAM_API_HASH env \<noteq> Some []"
    by (auto simp: credentials_ok_def split: option.splits)
  with c ej assms(3) have "export_channel_messages py_int fmt env cl channel path sep im tj w =
     (map_option Exception fin,
      w\<lparr>out_file := Some (concat (sink (export_loop im sep fmt msgs
            \<lparr>count = 0, sink = [], printed = []\<rparr>))),
        sink_open := False, parent_dirs := True,
        net := net w @ (Connect # calls @ [IterMessages entity, Disconnect]),
        console := console w @
          printed (export_loop im sep fmt msgs \<lparr>count = 0, sink = [], printed = []\<rparr>) @
          (case fin of
             None \<Rightarrow> [Done (count (export_loop im sep fmt msgs
                        \<lparr>count = 0, sink = [], printed = []\<rparr>)) path]
           | Some e \<Rightarrow> [])\<rparr>)"
    by (simp add: export_channel_messages_def Let_def disconnect_def split: option.splits)
  then show ?thesis by blast
qed

lemma run_resolved_parts:
  assumes "credentials_ok py_int env" and "resolves cl channel entity"
    and "iter_messages cl entity = (msgs, fin)"
  shows "fst (export_channel_messages py_int fmt env cl channel path sep im tj w) =
           map_option Exception fin"
    and "out_file (snd (export_channel_messages py_int fmt env cl channel path sep im tj w)) =
           Some (concat (map (export_record im sep fmt) (filter exportable msgs)))"
    and "sink_open (snd (export_channel_messages py_int fmt env cl channel path sep im tj w)) = False"
    and "parent_dirs (snd (export_channel_messages py_int fmt env cl channel path sep im tj w))"
    and "console (snd (export_channel_messages py_int fmt env cl channel path sep im tj w)) =
           console w @
           map Progress (filter (\<lambda>k. k mod 500 = 0) [1 ..< 1 + length (filter exportable msgs)]) @
           (case fin of None \<Rightarrow> [Done (length (filter exportable msgs)) path] | Some e \<Rightarrow> [])"
proof -
  let ?s = "export_loop im sep fmt msgs \<lparr>count = 0, sink = [], printed = []\<rparr>"
  have s: "concat (sink ?s) = concat (map (export_record im sep fmt) (filter exportable msgs))"
    by (simp add: export_loop_sink)
  have c: "count ?s = length (filter exportable msgs)"
    by (simp add: export_loop_count)
  have p: "printed ?s =
      map Progress (filter (\<lambda>k. k mod 500 = 0) [1 ..< 1 + length (filter exportable msgs)])"
    by (simp add: export_loop_printed)
  obtain calls where r: "export_channel_messages py_int fmt env cl channel path sep im tj w =
     (map_option Exception fin,
      w\<lparr>out_file := Some (concat (sink ?s)), sink_open := False, parent_dirs := True,
        net := net w @ calls,
        console := console w @ printed ?s @
          (case fin of None \<Rightarrow> [Done (count ?s) path] | Some e \<Rightarrow> [])\<rparr>)"
    using run_resolved [OF assms] by blast
  show "fst (export_channel_messages py_int fmt env cl channel path sep im tj w) =
           map_option Exception fin"
    by (simp add: r)
  show "out_file (snd (export_channel_messages py_int fmt env cl channel path sep im tj w)) =
           Some (concat (map (export_record im sep fmt) (filter exportable msgs)))"
    by (simp add: r s)
  show "sink_open (snd (export_channel_messages py_int fmt env cl channel path sep im tj w)) = False"
    by (simp add: r)
  show "parent_dirs (snd (export_channel_messages py_int fmt env cl channel path sep im tj w))"
    by (simp add: r)
  show "console (snd (export_channel_messages py_int fmt env cl channel path sep im tj w)) =
           console w @
           map Progress (filter (\<lambda>k. k mod 500 = 0) [1 ..< 1 + length (filter exportable msgs)]) @
           (case fin of None \<Rightarrow> [Done (length (filter exportable msgs)) path] | Some e \<Rightarrow> [])"
    unfolding r c p by simp
qed

lemma str_int_examples:
  "str_int 7 = ''7''" "str_int 120 = ''120''" "str_int (- 45) = ''-45''" "str_int 0 = ''0''"
  by (simp_all add: str_int_def str_nat.simps digit_def)

lemma concat_records_ends:
  assumes "kept \<noteq> []"
  shows "\<exists>pre. concat (map (export_record im sep fmt) kept) = pre @ sep"
proof -
  from assms obtain ys y where k: "kept = ys @ [y]"
    by (cases kept rule: rev_cases) auto
  have "concat (map (export_record im sep fmt) kept) =
      (concat (map (export_record im sep fmt) ys) @
       (if im then ''[id:'' @ str_int (msg_id y) @ '' | date:'' @ fmt (date y) @ '']'' @ [CHR 0x0A]
        else []) @
       exportable_text y) @ sep"
    unfolding k by (simp add: export_record_def)
  then show ?thesis by blast
qed

lemmas scenario_defs = scenario_messages_def scenario_client_def scenario_env_def
  scenario_int_def scenario_world_def fresh_world_def

lemma scenario_ready:
  "credentials_ok scenario_int scenario_env"
  "resolves (scenario_client j fin) ''https://t.me/exampleChan'' 7"
  "iter_messages (scenario_client j fin) 7 = (scenario_messages, fin)"
  by (simp_all add: scenario_defs credentials_ok_def resolves_def normalizer_defs)

lemma scenario_kept:
  "filter exportable scenario_messages = take 2 scenario_messages"
  by (simp add: scenario_messages_def exportable_def has_body_def has_caption_def)

















section \<open>The claims about the pipeline\<close>

text \<open>
  Claim C1. When the history ends normally, the file holds the records of exactly the
  exportable messages (the body is not empty or, failing that, the caption is present and
  not empty), in the order of the stream; the count reported at the end is their number;
  a message that is not exportable leaves the session as it was (no write, no increment),
  and an exportable one increments the counter by one.
\<close>

theorem export_writes_exportable_in_order:
  "credentials_ok py_int env \<and> resolves cl channel entity \<and>
   iter_messages cl entity = (msgs, None) \<longrightarrow>
     fst (export_channel_messages py_int fmt env cl channel path sep im tj w) = None \<and>
     out_file (snd (export_channel_messages py_int fmt env cl channel path sep im tj w)) =
       Some (concat (map (export_record im sep fmt) (filter exportable msgs))) \<and>
     console (snd (export_channel_messages py_int fmt env cl channel path sep im tj w)) =
       console w @
       map Progress (filter (\<lambda>k. k mod 500 = 0) [1 ..< 1 + length (filter exportable msgs)]) @
       [Done (length (filter exportable msgs)) path] \<and>
     (\<forall>m s. \<not> exportable m \<longrightarrow> export_step im sep fmt m s = s) \<and>
     (\<forall>m s. exportable m \<longrightarrow> count (export_step im sep fmt m s) = count s + 1)"
proof (intro impI)
  assume a: "credentials_ok py_int env \<and> resolves cl channel entity \<and>
   iter_messages cl entity = (msgs, None)"
  then have a1: "credentials_ok py_int env" and a2: "resolves cl channel entity"
    and a3: "iter_messages cl entity = (msgs, None)" by simp_all
  show "fst (export_channel_messages py_int fmt env cl channel path sep im tj w) = None \<and>
     out_file (snd (export_channel_messages py_int fmt env cl channel path sep im tj w)) =
       Some (concat (map (export_record im sep fmt) (filter exportable msgs))) \<and>
     console (snd (export_channel_messages py_int fmt env cl channel path sep im tj w)) =
       console w @
       map Progress (filter (\<lambda>k. k mod 500 = 0) [1 ..< 1 + length (filter exportable msgs)]) @
       [Done (length (filter exportable msgs)) path] \<and>
     (\<forall>m s. \<not> exportable m \<longrightarrow> export_step im sep fmt m s = s) \<and>
     (\<forall>m s. exportable m \<longrightarrow> count (export_step im sep fmt m s) = count s + 1)"
    using run_resolved_parts(1,2,5) [OF a1 a2 a3, of fmt path sep im tj w]
    by (simp add: export_step_skip export_step_count)
qed

theorem export_writes_exportable_in_order_witness:
  "credentials_ok scenario_int scenario_env \<and>
   resolves (scenario_client None None) ''https://t.me/exampleChan'' 7 \<and>
   iter_messages (scenario_client None None) 7 = (scenario_messages, None) \<and>
   out_file (snd (export_channel_messages scenario_int (\<lambda>d. d) scenario_env
      (scenario_client None None) ''https://t.me/exampleChan'' ''channel_export.md''
      [CHR 0x0A, CHR 0x0A] False False scenario_world)) =
     Some (''hello'' @ [CHR 0x0A, CHR 0x0A] @ ''pic caption'' @ [CHR 0x0A, CHR 0x0A]) \<and>
   console (snd (export_channel_messages scenario_int (\<lambda>d. d) scenario_env
      (scenario_client None None) ''https://t.me/exampleChan'' ''channel_export.md''
      [CHR 0x0A, CHR 0x0A] False False scenario_world)) = [Done 2 ''channel_export.md'']"
proof -
  have h: "credentials_ok scenario_int scenario_env \<and>
      resolves (scenario_client None None) ''https://t.me/exampleChan'' 7 \<and>
      iter_messages (scenario_client None None) 7 = (scenario_messages, None)"
    by (simp add: scenario_ready)
  have r: "concat (map (export_record False [CHR 0x0A, CHR 0x0A] (\<lambda>d. d))
        (filter exportable scenario_messages)) =
      ''hello'' @ [CHR 0x0A, CHR 0x0A] @ ''pic caption'' @ [CHR 0x0A, CHR 0x0A]"
    by (simp add: scenario_kept)
      (simp add: scenario_messages_def export_record_def exportable_text_def has_body_def)
  have c: "console scenario_world = []" by (simp add: scenario_world_def)
  have k: "length (filter exportable scenario_messages) = 2"
    by (simp add: scenario_kept) (simp add: scenario_messages_def)
  have u: "[1 ..< 1 + (2::nat)] = [1, 2]" by (simp add: upt_rec)
  from h export_writes_exportable_in_order [of scenario_int scenario_env
      "scenario_client None None" "''https://t.me/exampleChan''" 7 scenario_messages
      "\<lambda>d. d" "''channel_export.md''" "[CHR 0x0A, CHR 0x0A]" False False scenario_world]
  show ?thesis by (simp add: r c k u)
qed

text \<open>
  Claim C2. When the history raises after some messages, the exception leaves the
  function, the file holds the records of the exportable messages received before the
  failure, in order, the sink is closed, and no final notice is printed.
\<close>

theorem stream_failure_keeps_written_records:
  "credentials_ok py_int env \<and> resolves cl channel entity \<and>
   iter_messages cl entity = (msgs, Some e) \<longrightarrow>
     fst (export_channel_messages py_int fmt env cl channel path sep im tj w) =
       Some (Exception e) \<and>
     out_file (snd (export_channel_messages py_int fmt env cl channel path sep im tj w)) =
       Some (concat (map (export_record im sep fmt) (filter exportable msgs))) \<and>
     sink_open (snd (export_channel_messages py_int fmt env cl channel path sep im tj w)) = False \<and>
     console (snd (export_channel_messages py_int fmt env cl channel path sep im tj w)) =
       console w @
       map Progress (filter (\<lambda>k. k mod 500 = 0) [1 ..< 1 + length (filter exportable msgs)])"
proof (intro impI)
  assume a: "credentials_ok py_int env \<and> resolves cl channel entity \<and>
   iter_messages cl entity = (msgs, Some e)"
  then have a1: "credentials_ok py_int env" and a2: "resolves cl channel entity"
    and a3: "iter_messages cl entity = (msgs, Some e)" by simp_all
  show "fst (export_channel_messages py_int fmt env cl channel path sep im tj w) =
       Some (Exception e) \<and>
     out_file (snd (export_channel_messages py_int fmt env cl channel path sep im tj w)) =
       Some (concat (map (export_record im sep fmt) (filter exportable msgs))) \<and>
     sink_open (snd (export_channel_messages py_int fmt env cl channel path sep im tj w)) = False \<and>
     console (snd (export_channel_messages py_int fmt env cl channel path sep im tj w)) =
       console w @
       map Progress (filter (\<lambda>k. k mod 500 = 0) [1 ..< 1 + length (filter exportable msgs)])"
    using run_resolved_parts(1,2,3,5) [OF a1 a2 a3, of fmt path sep im tj w]
    by simp
qed

theorem stream_failure_keeps_written_records_witness:
  "credentials_ok scenario_int scenario_env \<and>
   resolves (scenario_client None (Some (OtherError ''ConnectionError'')))
     ''https://t.me/exampleChan'' 7 \<and>
   iter_messages (scenario_client None (Some (OtherError ''ConnectionError''))) 7 =
     (scenario_messages, Some (OtherError ''ConnectionError'')) \<and>
   fst (export_channel_messages scenario_int (\<lambda>d. d) scenario_env
      (scenario_client None (Some (OtherError ''ConnectionError'')))
      ''https://t.me/exampleChan'' ''channel_export.md''
      [CHR 0x0A, CHR 0x0A] False False scenario_world) =
     Some (Exception (OtherError ''ConnectionError'')) \<and>
   out_file (snd (export_channel_messages scenario_int (\<lambda>d. d) scenario_env
      (scenario_client None (Some (OtherError ''ConnectionError'')))
      ''https://t.me/exampleChan'' ''channel_export.md''
      [CHR 0x0A, CHR 0x0A] False False scenario_world)) =
     Some (''hello'' @ [CHR 0x0A, CHR 0x0A] @ ''pic caption'' @ [CHR 0x0A, CHR 0x0A]) \<and>
   sink_open (snd (export_channel_messages scenario_int (\<lambda>d. d) scenario_env
      (scenario_client None (Some (OtherError ''ConnectionError'')))
      ''https://t.me/exampleChan'' ''channel_export.md''
      [CHR 0x0A, CHR 0x0A] False False scenario_world)) = False"
proof -
  let ?e = "OtherError ''ConnectionError''"
  have h: "credentials_ok scenario_int scenario_env \<and>
      resolves (scenario_client None (Some ?e)) ''https://t.me/exampleChan'' 7 \<and>
      iter_messages (scenario_client None (Some ?e)) 7 = (scenario_messages, Some ?e)"
    by (simp add: scenario_ready)
  have r: "concat (map (export_record False [CHR 0x0A, CHR 0x0A] (\<lambda>d. d))
        (filter exportable scenario_messages)) =
      ''hello'' @ [CHR 0x0A, CHR 0x0A] @ ''pic caption'' @ [CHR 0x0A, CHR 0x0A]"
    by (simp add: scenario_kept)
      (simp add: scenario_messages_def export_record_def exportable_text_def has_body_def)
  from h stream_failure_keeps_written_records [of scenario_int scenario_env
      "scenario_client None (Some ?e)" "''https://t.me/exampleChan''" 7 scenario_messages
      ?e "\<lambda>d. d" "''channel_export.md''" "[CHR 0x0A, CHR 0x0A]" False False scenario_world]
  show ?thesis by (simp add: r)
qed

text \<open>
  Claim C6. With \<open>try_join\<close> set and the entity resolved, \<open>ensure_joined\<close> returns
  the entity whatever the join attempt does: it succeeds, raises
  \<open>UserAlreadyParticipantError\<close> or raises any other subclass of \<open>Exception\<close>.
\<close>

theorem join_failures_swallowed:
  "get_entity cl channel = Inr entity \<longrightarrow>
     ensure_joined cl channel True w =
       (Inr entity, w\<lparr>net := net w @ [GetEntity channel, Join entity]\<rparr>) \<and>
     (\<forall>outcome. fst (ensure_joined (cl\<lparr>join_channel := \<lambda>_. outcome\<rparr>) channel True w) =
        Inr entity)"
  by (simp add: ensure_joined_def Let_def split: option.splits exception.splits)

theorem join_failures_swallowed_witness:
  "get_entity (scenario_client (Some UserAlreadyParticipantError) None) ''exampleChan'' = Inr 7 \<and>
   fst (ensure_joined (scenario_client (Some UserAlreadyParticipantError) None)
     ''exampleChan'' True scenario_world) = Inr 7 \<and>
   get_entity (scenario_client (Some (OtherError ''ChannelPrivateError'')) None) ''exampleChan'' =
     Inr 7 \<and>
   fst (ensure_joined (scenario_client (Some (OtherError ''ChannelPrivateError'')) None)
     ''exampleChan'' True scenario_world) = Inr 7"
proof -
  have g: "get_entity (scenario_client j None) ''exampleChan'' = Inr 7" for j
    by (simp add: scenario_client_def)
  show ?thesis
    using g [of "Some UserAlreadyParticipantError"] g [of "Some (OtherError ''ChannelPrivateError'')"]
      join_failures_swallowed [of "scenario_client (Some UserAlreadyParticipantError) None"
        "''exampleChan''" 7 scenario_world]
      join_failures_swallowed [of "scenario_client (Some (OtherError ''ChannelPrivateError'')) None"
        "''exampleChan''" 7 scenario_world]
    by simp
qed

text \<open>
  Claim C7, as amended. A configuration error leaves the world as it was: no network
  call, no directory, no file. A resolution error comes after the directories above the
  output path have been created and before the sink is opened: the file is neither
  created nor truncated, and nothing is printed.
\<close>

theorem early_failures_leave_output_untouched:
  "(\<not> credentials_ok py_int env \<longrightarrow>
      snd (export_channel_messages py_int fmt env cl channel path sep im tj w) = w \<and>
      (fst (export_channel_messages py_int fmt env cl channel path sep im tj w) =
         Some (Exception ValueError) \<or>
       fst (export_channel_messages py_int fmt env cl channel path sep im tj w) =
         Some (SystemExit missing_credentials))) \<and>
   (credentials_ok py_int env \<and> connect cl = None \<and>
    get_entity cl (parse_channel_identifier channel) = Inl e \<longrightarrow>
      export_channel_messages py_int fmt env cl channel path sep im tj w =
        (Some (Exception e), w\<lparr>parent_dirs := True,
           net := net w @ [Connect, GetEntity (parse_channel_identifier channel), Disconnect]\<rparr>))"
  using run_unready [of py_int env fmt cl channel path sep im tj w]
    run_unresolved [of py_int env cl channel e fmt path sep im tj w]
  by blast

theorem early_failures_leave_output_untouched_witness:
  "\<not> credentials_ok scenario_int (scenario_env\<lparr>TELEGRAM_API_HASH := None\<rparr>) \<and>
   export_channel_messages scenario_int (\<lambda>d. d) (scenario_env\<lparr>TELEGRAM_API_HASH := None\<rparr>)
      (scenario_client None None) ''@exampleChan'' ''out/channel_export.md''
      [CHR 0x0A, CHR 0x0A] False False fresh_world =
     (Some (SystemExit missing_credentials), fresh_world) \<and>
   credentials_ok scenario_int scenario_env \<and> connect (scenario_client None None) = None \<and>
   get_entity (scenario_client None None) (parse_channel_identifier ''@nobody'') =
     Inl ValueError \<and>
   export_channel_messages scenario_int (\<lambda>d. d) scenario_env
      (scenario_client None None) ''@nobody'' ''out/channel_export.md''
      [CHR 0x0A, CHR 0x0A] False False fresh_world =
     (Some (Exception ValueError),
      fresh_world\<lparr>parent_dirs := True, net := [Connect, GetEntity ''nobody'', Disconnect]\<rparr>)"
proof -
  let ?env = "scenario_env\<lparr>TELEGRAM_API_HASH := None\<rparr>"
  let ?run = "export_channel_messages scenario_int (\<lambda>d. d) ?env
      (scenario_client None None) ''@exampleChan'' ''out/channel_export.md''
      [CHR 0x0A, CHR 0x0A] False False fresh_world"
  have n: "\<not> credentials_ok scenario_int ?env"
    by (simp add: credentials_ok_def scenario_defs)
  have h: "credentials_ok scenario_int scenario_env \<and> connect (scenario_client None None) = None \<and>
      get_entity (scenario_client None None) (parse_channel_identifier ''@nobody'') =
        Inl ValueError"
    by (simp add: scenario_ready) (simp add: scenario_client_def normalizer_defs)
  have p: "parse_channel_identifier ''@nobody'' = ''nobody''" by (simp add: normalizer_defs)
  have w: "net fresh_world = []" by (simp add: fresh_world_def)
  have "fst ?run \<noteq> Some (Exception ValueError)"
    by (simp add: export_channel_messages_def scenario_defs)
  with n early_failures_leave_output_untouched [of scenario_int ?env "\<lambda>d. d"
      "scenario_client None None" "''@exampleChan''" "''out/channel_export.md''"
      "[CHR 0x0A, CHR 0x0A]" False False fresh_world]
  have "?run = (Some (SystemExit missing_credentials), fresh_world)"
    by (metis prod.collapse)
  moreover from h early_failures_leave_output_untouched [of scenario_int scenario_env "\<lambda>d. d"
      "scenario_client None None" "''@nobody''" "''out/channel_export.md''"
      "[CHR 0x0A, CHR 0x0A]" False False fresh_world ValueError]
  have "export_channel_messages scenario_int (\<lambda>d. d) scenario_env
      (scenario_client None None) ''@nobody'' ''out/channel_export.md''
      [CHR 0x0A, CHR 0x0A] False False fresh_world =
     (Some (Exception ValueError),
      fresh_world\<lparr>parent_dirs := True, net := [Connect, GetEntity ''nobody'', Disconnect]\<rparr>)"
    by (simp add: p w)
  ultimately show ?thesis using n h by simp
qed

text \<open>
  The claim as stated fails for resolution errors: the directories above the output path
  are created before the entity is resolved. Here the world before has neither the file
  nor the directories; after the failed run the directories exist, and the file does not.
\<close>

theorem resolution_failure_after_mkdir_counterexample:
  "fst (export_channel_messages scenario_int (\<lambda>d. d) scenario_env
      (scenario_client None None) ''@nobody'' ''out/channel_export.md''
      [CHR 0x0A, CHR 0x0A] False False fresh_world) = Some (Exception ValueError) \<and>
   \<not> parent_dirs fresh_world \<and>
   parent_dirs (snd (export_channel_messages scenario_int (\<lambda>d. d) scenario_env
      (scenario_client None None) ''@nobody'' ''out/channel_export.md''
      [CHR 0x0A, CHR 0x0A] False False fresh_world)) \<and>
   out_file (snd (export_channel_messages scenario_int (\<lambda>d. d) scenario_env
      (scenario_client None None) ''@nobody'' ''out/channel_export.md''
      [CHR 0x0A, CHR 0x0A] False False fresh_world)) = None"
  by (simp add: export_channel_messages_def scenario_defs ensure_joined_def normalizer_defs
      disconnect_def Let_def)




text \<open>
  Claim C9. For every separator, the last two writes for an exported message are its
  text and the separator, each as it is; before them comes the metadata line only, and
  only when it is asked for.
\<close>

theorem separator_written_verbatim:
  "exportable m \<longrightarrow>
     2 \<le> length (sink (export_step im sep fmt m s)) \<and>
     last (sink (export_step im sep fmt m s)) = sep \<and>
     last (butlast (sink (export_step im sep fmt m s))) = exportable_text m \<and>
     butlast (butlast (sink (export_step im sep fmt m s))) =
       sink s @ (if im then [meta_line fmt m @ [CHR 0x0A]] else []) \<and>
     concat (sink (export_step im sep fmt m s)) =
       concat (sink s) @ (if im then meta_line fmt m @ [CHR 0x0A] else []) @
       exportable_text m @ sep"
  by (simp add: export_step_sink butlast_append)

theorem separator_written_verbatim_witness:
  "exportable (hd scenario_messages) \<and>
   sink (export_step False (''---'' @ [CHR 0x0A]) (\<lambda>d. d) (hd scenario_messages)
     \<lparr>count = 0, sink = [], printed = []\<rparr>) = [''hello'', ''---'' @ [CHR 0x0A]]"
proof -
  let ?s = "export_step False (''---'' @ [CHR 0x0A]) (\<lambda>d. d) (hd scenario_messages)
     \<lparr>count = 0, sink = [], printed = []\<rparr>"
  have e: "exportable (hd scenario_messages)"
    by (simp add: scenario_messages_def exportable_def has_body_def)
  have t: "exportable_text (hd scenario_messages) = ''hello''"
    by (simp add: scenario_messages_def exportable_text_def has_body_def)
  from e separator_written_verbatim [of "hd scenario_messages" False "''---'' @ [CHR 0x0A]"
      "\<lambda>d. d" "\<lparr>count = 0, sink = [], printed = []\<rparr>"]
  have l: "2 \<le> length (sink ?s)" and a: "last (sink ?s) = ''---'' @ [CHR 0x0A]"
    and b: "last (butlast (sink ?s)) = ''hello''" and c: "butlast (butlast (sink ?s)) = []"
    by (simp_all add: t)
  from l have n1: "sink ?s \<noteq> []" by auto
  from l have n2: "butlast (sink ?s) \<noteq> []" by (cases "sink ?s" rule: rev_cases) auto
  have "sink ?s = butlast (sink ?s) @ [last (sink ?s)]" using n1 by simp
  moreover have "butlast (sink ?s) = butlast (butlast (sink ?s)) @ [last (butlast (sink ?s))]"
    using n2 by simp
  ultimately have "sink ?s = [''hello'', ''---'' @ [CHR 0x0A]]"
    using a b c by simp
  with e show ?thesis by simp
qed

text \<open>
  Claim C10. On normal completion the file is the concatenation of the records of the
  exported messages, whatever it held before: it is empty when none was exported and
  ends with the separator otherwise. The last notice reports their number.
\<close>

theorem file_is_concatenation_of_records:
  "credentials_ok py_int env \<and> resolves cl channel entity \<and>
   iter_messages cl entity = (msgs, None) \<longrightarrow>
     out_file (snd (export_channel_messages py_int fmt env cl channel path sep im tj w)) =
       Some (concat (map (export_record im sep fmt) (filter exportable msgs))) \<and>
     (length (filter exportable msgs) = 0 \<longrightarrow>
        out_file (snd (export_channel_messages py_int fmt env cl channel path sep im tj w)) =
          Some []) \<and>
     (0 < length (filter exportable msgs) \<longrightarrow>
        (\<exists>pre. out_file (snd (export_channel_messages py_int fmt env cl channel path sep im tj w)) =
           Some (pre @ sep))) \<and>
     last (console (snd (export_channel_messages py_int fmt env cl channel path sep im tj w))) =
       Done (length (filter exportable msgs)) path"
proof (intro impI)
  assume a: "credentials_ok py_int env \<and> resolves cl channel entity \<and>
   iter_messages cl entity = (msgs, None)"
  then have a1: "credentials_ok py_int env" and a2: "resolves cl channel entity"
    and a3: "iter_messages cl entity = (msgs, None)" by simp_all
  let ?r = "export_channel_messages py_int fmt env cl channel path sep im tj w"
  let ?kept = "filter exportable msgs"
  have o: "out_file (snd ?r) = Some (concat (map (export_record im sep fmt) ?kept))"
    by (rule run_resolved_parts(2) [OF a1 a2 a3])
  have c: "last (console (snd ?r)) = Done (length ?kept) path"
    using run_resolved_parts(5) [OF a1 a2 a3, of fmt path sep im tj w] by simp
  have e: "length ?kept = 0 \<longrightarrow> out_file (snd ?r) = Some []"
    using o by simp
  have p: "0 < length ?kept \<longrightarrow> (\<exists>pre. out_file (snd ?r) = Some (pre @ sep))"
    using o concat_records_ends [of ?kept im sep fmt] by auto
  from o e p c show "out_file (snd ?r) =
       Some (concat (map (export_record im sep fmt) ?kept)) \<and>
     (length ?kept = 0 \<longrightarrow> out_file (snd ?r) = Some []) \<and>
     (0 < length ?kept \<longrightarrow> (\<exists>pre. out_file (snd ?r) = Some (pre @ sep))) \<and>
     last (console (snd ?r)) = Done (length ?kept) path"
    by blast
qed

theorem file_is_concatenation_of_records_witness:
  "credentials_ok scenario_int scenario_env \<and>
   resolves (scenario_client None None) ''https://t.me/exampleChan'' 7 \<and>
   iter_messages (scenario_client None None) 7 = (scenario_messages, None) \<and>
   0 < length (filter exportable scenario_messages) \<and>
   out_file scenario_world = Some ''an older export'' \<and>
   out_file (snd (export_channel_messages scenario_int (\<lambda>d. d) scenario_env
      (scenario_client None None) ''https://t.me/exampleChan'' ''channel_export.md''
      ''--'' False False scenario_world)) = Some (''hello--pic caption'' @ ''--'')"
proof -
  have h: "credentials_ok scenario_int scenario_env \<and>
      resolves (scenario_client None None) ''https://t.me/exampleChan'' 7 \<and>
      iter_messages (scenario_client None None) 7 = (scenario_messages, None)"
    by (simp add: scenario_ready)
  have k: "0 < length (filter exportable scenario_messages)"
    by (simp add: scenario_kept) (simp add: scenario_messages_def)
  have r: "concat (map (export_record False ''--'' (\<lambda>d. d))
        (filter exportable scenario_messages)) = ''hello--pic caption'' @ ''--''"
    by (simp add: scenario_kept)
      (simp add: scenario_messages_def export_record_def exportable_text_def has_body_def)
  have o: "out_file scenario_world = Some ''an older export''"
    by (simp add: scenario_world_def)
  from h file_is_concatenation_of_records [of scenario_int scenario_env
      "scenario_client None None" "''https://t.me/exampleChan''" 7 scenario_messages
      "\<lambda>d. d" "''channel_export.md''" "''--''" False False scenario_world]
  have "out_file (snd (export_channel_messages scenario_int (\<lambda>d. d) scenario_env
      (scenario_client None None) ''https://t.me/exampleChan'' ''channel_export.md''
      ''--'' False False scenario_world)) = Some (''hello--pic caption'' @ ''--'')"
    using r by simp
  with h k o show ?thesis by simp
qed

end
